theory Spec2Isabelle
  imports Main "HOL-Library.Stream"
begin

section \<open>Terminal Snake: the game-state machine of \<^verbatim>\<open>snake_game.py\<close>\<close>

text \<open>
  The two source files, \<^verbatim>\<open>snake_game.py\<close> and \<^verbatim>\<open>snake_game_learn.py\<close>, hold the
  same statements (the second one is the first with teaching comments), so one model
  covers both. The model keeps the fields of \<^verbatim>\<open>SnakeGame\<close> that the state machine reads
  or writes, and the methods that change them: \<^verbatim>\<open>__init__\<close>, \<^verbatim>\<open>reset_game\<close>,
  \<^verbatim>\<open>generate_food\<close>, \<^verbatim>\<open>handle_input\<close> and \<^verbatim>\<open>update_snake\<close>. The draw methods assign no
  field and are not modelled; neither is the loop of \<^verbatim>\<open>run\<close>, which calls \<^verbatim>\<open>draw_game\<close> after
  every tick. A draw raises \<^verbatim>\<open>curses.error\<close> when a text does not fit the window: the
  status line holds texts of 41 and 44 characters, so the loop only survives its first
  frame on a terminal of 45 columns or more. Runs of the loop are therefore given for a
  terminal of 24 lines and 80 columns, as the sequence of its calls of \<^verbatim>\<open>handle_input\<close>
  and \<^verbatim>\<open>update_snake\<close>.
\<close>

subsection \<open>Data\<close>

text \<open>\<^verbatim>\<open>class Direction(Enum)\<close>; \<open>delta\<close> is the enum member's \<^verbatim>\<open>.value\<close>.\<close>

datatype Direction = UP | DOWN | LEFT | RIGHT

fun delta :: "Direction \<Rightarrow> int \<times> int" where
  "delta UP = (-1, 0)"
| "delta DOWN = (1, 0)"
| "delta LEFT = (0, -1)"
| "delta RIGHT = (0, 1)"

type_synonym pos = "int \<times> int"

text \<open>The exceptions the modelled statements can raise.\<close>

datatype error = ValueError | IndexError

text \<open>
  The attributes of a \<^verbatim>\<open>SnakeGame\<close> object. \<open>height\<close> and \<open>width\<close> are the terminal's
  size, \<open>game_height\<close> and \<open>game_width\<close> the game area. Two pieces of state live outside
  the object in the source and are fields here: \<open>timeout\<close> is the delay last given to
  \<^verbatim>\<open>stdscr.timeout\<close>, and \<open>rng\<close> is the state of the \<^verbatim>\<open>random\<close> module, a stream of raw
  draws of which every call of \<^verbatim>\<open>randint\<close> consumes one.
\<close>

record game =
  height :: int
  width :: int
  game_height :: int
  game_width :: int
  snake :: "pos list"
  direction :: Direction
  food :: pos
  game_over :: bool
  score :: int
  high_score :: int
  timeout :: int
  rng :: "nat stream"

subsection \<open>Library calls\<close>

text \<open>
  \<^verbatim>\<open>random.randint(a, b)\<close> returns an integer of the closed range \<open>a..b\<close> and raises
  \<^verbatim>\<open>ValueError\<close> when the range is empty. The raw draw is reduced into the range, so
  every value of the range can come out and nothing else can.
\<close>

definition randint :: "int \<Rightarrow> int \<Rightarrow> nat stream \<Rightarrow> error + (int \<times> nat stream)" where
  "randint a b r =
     (if b < a then Inl ValueError
      else Inr (a + int (shd r mod nat (b - a + 1)), stl r))"

text \<open>\<^verbatim>\<open>ord\<close> on a one-character string, and the key codes of \<^verbatim>\<open>curses\<close>.\<close>

definition ord :: "char \<Rightarrow> int" where
  "ord c = of_char c"

definition KEY_DOWN :: int where "KEY_DOWN = 258"
definition KEY_UP :: int where "KEY_UP = 259"
definition KEY_LEFT :: int where "KEY_LEFT = 260"
definition KEY_RIGHT :: int where "KEY_RIGHT = 261"

subsection \<open>Operations\<close>

text \<open>
  \<^verbatim>\<open>generate_food\<close>: the \<^verbatim>\<open>while True\<close> loop draws a row and a column and returns the
  cell when the snake does not hold it. The loop has no bound, so the function is
  partial: \<open>None\<close> is a loop that never returns, \<open>Some (Inl e)\<close> a raised exception,
  \<open>Some (Inr (cell, s'))\<close> the returned cell and the state with the draws consumed.
\<close>

partial_function (option) generate_food :: "game \<Rightarrow> (error + (pos \<times> game)) option" where
  "generate_food s =
     (case randint 1 (game_height s - 1) (rng s) of
        Inl e \<Rightarrow> Some (Inl e)
      | Inr (food_y, r1) \<Rightarrow>
          (case randint 1 (game_width s - 1) r1 of
             Inl e \<Rightarrow> Some (Inl e)
           | Inr (food_x, r2) \<Rightarrow>
               if (food_y, food_x) \<notin> set (snake s)
               then Some (Inr ((food_y, food_x), s\<lparr>rng := r2\<rparr>))
               else generate_food (s\<lparr>rng := r2\<rparr>)))"

text \<open>\<^verbatim>\<open>reset_game\<close>.\<close>

definition reset_game :: "game \<Rightarrow> (error + game) option" where
  "reset_game s =
     (let start_y = game_height s div 2;
          start_x = game_width s div 2;
          s1 = s\<lparr>snake := [(start_y, start_x), (start_y, start_x - 1), (start_y, start_x - 2)],
                 direction := RIGHT\<rparr>
      in case generate_food s1 of
           None \<Rightarrow> None
         | Some (Inl e) \<Rightarrow> Some (Inl e)
         | Some (Inr (f, s2)) \<Rightarrow> Some (Inr (s2\<lparr>food := f, game_over := False, score := 0\<rparr>)))"

text \<open>
  \<^verbatim>\<open>__init__\<close>, for a terminal of \<open>h\<close> lines and \<open>w\<close> columns (\<^verbatim>\<open>stdscr.getmaxyx()\<close>) and
  a generator state \<open>r\<close>. The attributes that \<^verbatim>\<open>reset_game\<close> creates do not exist before
  it runs; the record gives them placeholder values that \<^verbatim>\<open>reset_game\<close> overwrites. The
  delay is \<open>-1\<close> (blocking, the default of \<^verbatim>\<open>curses\<close>) until \<^verbatim>\<open>stdscr.timeout(100)\<close>.
\<close>

definition init :: "int \<Rightarrow> int \<Rightarrow> nat stream \<Rightarrow> (error + game) option" where
  "init h w r =
     (let s0 = \<lparr>height = h, width = w, game_height = h - 4, game_width = w - 2,
                snake = [], direction = RIGHT, food = (0, 0), game_over = False,
                score = 0, high_score = 0, timeout = -1, rng = r\<rparr>
      in case reset_game s0 of
           None \<Rightarrow> None
         | Some (Inl e) \<Rightarrow> Some (Inl e)
         | Some (Inr s1) \<Rightarrow> Some (Inr (s1\<lparr>timeout := 100\<rparr>)))"

text \<open>
  \<^verbatim>\<open>handle_input\<close>, with the key that \<^verbatim>\<open>stdscr.getch()\<close> returned as an argument. The
  boolean of the result is the method's return value (\<open>False\<close> quits the loop).
\<close>

definition handle_input :: "int \<Rightarrow> game \<Rightarrow> (error + (bool \<times> game)) option" where
  "handle_input key s =
     (if key = ord CHR ''q'' \<or> key = ord CHR ''Q'' then Some (Inr (False, s))
      else if key = ord CHR ''r'' \<or> key = ord CHR ''R'' then
        (if game_over s then
           (case reset_game s of
              None \<Rightarrow> None
            | Some (Inl e) \<Rightarrow> Some (Inl e)
            | Some (Inr s') \<Rightarrow> Some (Inr (True, s')))
         else Some (Inr (True, s)))
      else if \<not> game_over s then
        (if key = KEY_UP \<or> key = ord CHR ''w'' \<or> key = ord CHR ''W'' then
           (if direction s \<noteq> DOWN then Some (Inr (True, s\<lparr>direction := UP\<rparr>))
            else Some (Inr (True, s)))
         else if key = KEY_DOWN \<or> key = ord CHR ''s'' \<or> key = ord CHR ''S'' then
           (if direction s \<noteq> UP then Some (Inr (True, s\<lparr>direction := DOWN\<rparr>))
            else Some (Inr (True, s)))
         else if key = KEY_LEFT \<or> key = ord CHR ''a'' \<or> key = ord CHR ''A'' then
           (if direction s \<noteq> RIGHT then Some (Inr (True, s\<lparr>direction := LEFT\<rparr>))
            else Some (Inr (True, s)))
         else if key = KEY_RIGHT \<or> key = ord CHR ''d'' \<or> key = ord CHR ''D'' then
           (if direction s \<noteq> LEFT then Some (Inr (True, s\<lparr>direction := RIGHT\<rparr>))
            else Some (Inr (True, s)))
         else Some (Inr (True, s)))
      else Some (Inr (True, s)))"

text \<open>
  The parts of \<^verbatim>\<open>update_snake\<close>: the new head (\<^verbatim>\<open>head + direction.value\<close>), the wall test
  and the four lines that end the game, which the source has twice.
\<close>

definition move :: "pos \<Rightarrow> Direction \<Rightarrow> pos" where
  "move hd_pos d = (case hd_pos of (head_y, head_x) \<Rightarrow> case delta d of (dy, dx) \<Rightarrow>
     (head_y + dy, head_x + dx))"

definition wall :: "game \<Rightarrow> pos \<Rightarrow> bool" where
  "wall s new_head \<longleftrightarrow>
     fst new_head \<le> 0 \<or> fst new_head \<ge> game_height s \<or>
     snd new_head \<le> 0 \<or> snd new_head \<ge> game_width s"

definition end_game :: "game \<Rightarrow> game" where
  "end_game s =
     (let s1 = s\<lparr>game_over := True\<rparr>
      in if score s1 > high_score s1 then s1\<lparr>high_score := score s1\<rparr> else s1)"

text \<open>
  \<^verbatim>\<open>update_snake\<close>. \<^verbatim>\<open>self.snake[0]\<close> raises \<^verbatim>\<open>IndexError\<close> on an empty list;
  \<^verbatim>\<open>self.snake.pop()\<close> runs after the insertion, on a list that is not empty.
\<close>

definition update_snake :: "game \<Rightarrow> (error + game) option" where
  "update_snake s =
     (if game_over s then Some (Inr s)
      else case snake s of
        [] \<Rightarrow> Some (Inl IndexError)
      | head # _ \<Rightarrow>
          let new_head = move head (direction s)
          in if wall s new_head then Some (Inr (end_game s))
             else if new_head \<in> set (snake s) then Some (Inr (end_game s))
             else
               let s1 = s\<lparr>snake := new_head # snake s\<rparr>
               in if new_head = food s1 then
                    (case generate_food (s1\<lparr>score := score s1 + 10\<rparr>) of
                       None \<Rightarrow> None
                     | Some (Inl e) \<Rightarrow> Some (Inl e)
                     | Some (Inr (f, s2)) \<Rightarrow>
                         let s3 = s2\<lparr>food := f\<rparr>;
                             new_timeout = max 50 (100 - score s3 div 50)
                         in Some (Inr (s3\<lparr>timeout := new_timeout\<rparr>)))
                  else Some (Inr (s1\<lparr>snake := butlast (snake s1)\<rparr>)))"

subsection \<open>Notions the properties are stated with\<close>

text \<open>
  The states a process can be in: the state \<^verbatim>\<open>__init__\<close> builds, for any terminal size
  and any generator state, and every state that a returning call of \<^verbatim>\<open>handle_input\<close>
  (with any key) or of \<^verbatim>\<open>update_snake\<close> leads to.
\<close>

inductive reachable :: "game \<Rightarrow> bool" where
  reach_init: "init h w r = Some (Inr s) \<Longrightarrow> reachable s"
| reach_input: "reachable s \<Longrightarrow> handle_input key s = Some (Inr (b, s')) \<Longrightarrow> reachable s'"
| reach_tick: "reachable s \<Longrightarrow> update_snake s = Some (Inr s') \<Longrightarrow> reachable s'"

text \<open>\<open>n\<close> calls of \<^verbatim>\<open>update_snake\<close> in a row.\<close>

fun ticks :: "nat \<Rightarrow> game \<Rightarrow> (error + game) option" where
  "ticks 0 s = Some (Inr s)"
| "ticks (Suc n) s =
     (case update_snake s of
        None \<Rightarrow> None
      | Some (Inl e) \<Rightarrow> Some (Inl e)
      | Some (Inr s') \<Rightarrow> ticks n s')"

text \<open>
  Any sequence of the three operations that change the state: input handling with a
  key (the value \<^verbatim>\<open>getch\<close> returned, \<open>-1\<close> when no key is pending), a tick, and a
  reset.
\<close>

datatype operation = Input int | Tick | Reset

fun apply_op :: "operation \<Rightarrow> game \<Rightarrow> (error + game) option" where
  "apply_op (Input key) s =
     (case handle_input key s of
        None \<Rightarrow> None
      | Some (Inl e) \<Rightarrow> Some (Inl e)
      | Some (Inr (b, s')) \<Rightarrow> Some (Inr s'))"
| "apply_op Tick s = update_snake s"
| "apply_op Reset s = reset_game s"

fun apply_ops :: "operation list \<Rightarrow> game \<Rightarrow> (error + game) option" where
  "apply_ops [] s = Some (Inr s)"
| "apply_ops (x # xs) s =
     (case apply_op x s of
        None \<Rightarrow> None
      | Some (Inl e) \<Rightarrow> Some (Inl e)
      | Some (Inr s') \<Rightarrow> apply_ops xs s')"

text \<open>
  The keys of a movement command (arrow key or letter, in either case), and the
  reversal of a direction: the direction whose delta is the negated one.
\<close>

fun move_keys :: "Direction \<Rightarrow> int list" where
  "move_keys UP = [KEY_UP, ord CHR ''w'', ord CHR ''W'']"
| "move_keys DOWN = [KEY_DOWN, ord CHR ''s'', ord CHR ''S'']"
| "move_keys LEFT = [KEY_LEFT, ord CHR ''a'', ord CHR ''A'']"
| "move_keys RIGHT = [KEY_RIGHT, ord CHR ''d'', ord CHR ''D'']"

fun opposite :: "Direction \<Rightarrow> Direction" where
  "opposite UP = DOWN"
| "opposite DOWN = UP"
| "opposite LEFT = RIGHT"
| "opposite RIGHT = LEFT"

text \<open>
  The grid of the specification is 0-indexed and its outermost ring is wall. The walls
  of the code are the rows 0 and \<open>game_height\<close> and the columns 0 and \<open>game_width\<close>, with
  the cells \<^verbatim>\<open>generate_food\<close> samples between them: the grid has the rows
  \<open>0..game_height\<close> and the columns \<open>0..game_width\<close>, so its bounds are
  \<open>(game_height + 1, game_width + 1)\<close>. \<open>spec_boundary\<close> is the wall test in the
  specification's words: row \<open>\<le> 0\<close>, row \<open>\<ge> height - 1\<close>, column \<open>\<le> 0\<close> or
  column \<open>\<ge> width - 1\<close>.
\<close>

definition grid_bounds :: "game \<Rightarrow> int \<times> int" where
  "grid_bounds s = (game_height s + 1, game_width s + 1)"

definition spec_boundary :: "int \<times> int \<Rightarrow> pos \<Rightarrow> bool" where
  "spec_boundary bounds p \<longleftrightarrow>
     (case bounds of (h, w) \<Rightarrow> fst p \<le> 0 \<or> fst p \<ge> h - 1 \<or> snd p \<le> 0 \<or> snd p \<ge> w - 1)"

text \<open>The interval of the specification: \<open>max(50, 100 - score div 50)\<close>.\<close>

definition interval_ms :: "int \<Rightarrow> int" where
  "interval_ms sc = max 50 (100 - sc div 50)"

text \<open>
  The region \<^verbatim>\<open>generate_food\<close> samples, the cell its \<open>k\<close>-th pass draws (two raw draws a
  pass), and a fair generator: one that draws every cell of the region at some pass.
\<close>

definition region :: "game \<Rightarrow> pos set" where
  "region s = {(y, x). 1 \<le> y \<and> y \<le> game_height s - 1 \<and> 1 \<le> x \<and> x \<le> game_width s - 1}"

definition draw :: "game \<Rightarrow> nat \<Rightarrow> pos" where
  "draw s k =
     (1 + int (rng s !! (2 * k) mod nat (game_height s - 1)),
      1 + int (rng s !! (2 * k + 1) mod nat (game_width s - 1)))"

definition fair :: "game \<Rightarrow> bool" where
  "fair s \<longleftrightarrow> (\<forall>c \<in> region s. \<exists>k. draw s k = c)"

subsection \<open>Example states\<close>

text \<open>
  States of a \<^verbatim>\<open>SnakeGame\<close> object for a terminal of 10 lines and 40 columns (a game
  area of 6 by 38), the smallest terminal \<^verbatim>\<open>main\<close> accepts, written by their changing
  attributes.
\<close>

definition on_40x10 ::
  "pos list \<Rightarrow> Direction \<Rightarrow> pos \<Rightarrow> bool \<Rightarrow> int \<Rightarrow> int \<Rightarrow> int \<Rightarrow> nat stream \<Rightarrow> game" where
  "on_40x10 sn d f ov sc hs tm r =
     \<lparr>height = 10, width = 40, game_height = 6, game_width = 38, snake = sn, direction = d,
      food = f, game_over = ov, score = sc, high_score = hs, timeout = tm, rng = r\<rparr>"

text \<open>
  A generator whose first draws put five pieces of food in a row in front of the new
  snake, and the states its method calls lead to: \<open>fresh\<close> is the state \<^verbatim>\<open>__init__\<close>
  builds, \<open>grown\<close> the state after the first tick, \<open>before_crash\<close> the state after five
  pieces of food and two steps down, \<open>crashed\<close> the state after the next tick, and
  \<open>restarted\<close> the state after the restart key and one more tick.
\<close>

definition feast :: "nat stream" where
  "feast = [2, 19, 2, 20, 2, 21, 2, 22, 2, 23] @- sconst 0"

definition fresh :: game where
  "fresh = on_40x10 [(3, 19), (3, 18), (3, 17)] RIGHT (3, 20) False 0 0 100
     ([2, 20, 2, 21, 2, 22, 2, 23] @- sconst 0)"

definition grown :: game where
  "grown = on_40x10 [(3, 20), (3, 19), (3, 18), (3, 17)] RIGHT (3, 21) False 10 0 100
     ([2, 21, 2, 22, 2, 23] @- sconst 0)"

definition before_crash :: game where
  "before_crash =
     on_40x10 [(5, 24), (4, 24), (3, 24), (3, 23), (3, 22), (3, 21), (3, 20), (3, 19)]
       DOWN (1, 1) False 50 0 99 (sconst 0)"

definition crashed :: game where
  "crashed =
     on_40x10 [(5, 24), (4, 24), (3, 24), (3, 23), (3, 22), (3, 21), (3, 20), (3, 19)]
       DOWN (1, 1) True 50 50 99 (sconst 0)"

definition restarted :: game where
  "restarted = on_40x10 [(3, 20), (3, 19), (3, 18)] RIGHT (1, 1) False 0 50 99 (sconst 0)"

text \<open>
  A game whose generator only draws zeros: \<open>turned_down\<close> is its state after the key
  \<^verbatim>\<open>s\<close> and one tick.
\<close>

definition turned_down :: game where
  "turned_down = on_40x10 [(4, 19), (3, 19), (3, 18)] DOWN (1, 1) False 0 0 100 (sconst 0)"

text \<open>
  \<open>sweep\<close> is a generator that draws the cells of the sampled region row by row, again
  and again; \<open>swept\<close> is the state in which \<^verbatim>\<open>reset_game\<close> calls \<^verbatim>\<open>generate_food\<close> under
  \<^verbatim>\<open>__init__\<close> with it.
\<close>

definition sweep :: "nat stream" where
  "sweep = smap (\<lambda>n. if even n then n div 2 div 37 else n div 2 mod 37) nats"

definition swept :: game where
  "swept = on_40x10 [(3, 19), (3, 18), (3, 17)] RIGHT (0, 0) False 0 0 (-1) sweep"

text \<open>
  States for a terminal of 24 lines and 80 columns (a game area of 20 by 78), where
  every text of \<^verbatim>\<open>draw_game\<close> fits the window.
\<close>

definition on_80x24 ::
  "pos list \<Rightarrow> Direction \<Rightarrow> pos \<Rightarrow> bool \<Rightarrow> int \<Rightarrow> int \<Rightarrow> int \<Rightarrow> nat stream \<Rightarrow> game" where
  "on_80x24 sn d f ov sc hs tm r =
     \<lparr>height = 24, width = 80, game_height = 20, game_width = 78, snake = sn, direction = d,
      food = f, game_over = ov, score = sc, high_score = hs, timeout = tm, rng = r\<rparr>"

text \<open>
  A generator whose first draws put five pieces of food in the column above the new
  snake's head, one after the other, and then the cell \<open>(1, 1)\<close>. \<open>laid\<close> is the state
  \<^verbatim>\<open>__init__\<close> builds with it. \<open>banquet_run\<close> is what the loop then calls when the player
  presses \<^verbatim>\<open>w\<close> at once, lets the snake run into the top wall and presses \<^verbatim>\<open>r\<close>: eleven
  passes, each \<^verbatim>\<open>handle_input\<close> and then \<^verbatim>\<open>update_snake\<close>. \<open>revived\<close> is the state after
  them.
\<close>

definition banquet :: "nat stream" where
  "banquet = [8, 38, 7, 38, 6, 38, 5, 38, 4, 38] @- sconst 0"

definition laid :: game where
  "laid = on_80x24 [(10, 39), (10, 38), (10, 37)] RIGHT (9, 39) False 0 0 100
     ([7, 38, 6, 38, 5, 38, 4, 38] @- sconst 0)"

definition banquet_run :: "operation list" where
  "banquet_run =
     [Input (ord CHR ''w''), Tick, Input (-1), Tick, Input (-1), Tick, Input (-1), Tick,
      Input (-1), Tick, Input (-1), Tick, Input (-1), Tick, Input (-1), Tick,
      Input (-1), Tick, Input (-1), Tick, Input (ord CHR ''r''), Tick]"

definition revived :: game where
  "revived = on_80x24 [(10, 40), (10, 39), (10, 38)] RIGHT (1, 1) False 0 50 99 (sconst 0)"




section \<open>Facts about the operations\<close>

subsection \<open>Keys and \<^verbatim>\<open>handle_input\<close>\<close>

lemma key_codes:
  "ord CHR ''q'' = 113" "ord CHR ''Q'' = 81" "ord CHR ''r'' = 114" "ord CHR ''R'' = 82"
  "ord CHR ''w'' = 119" "ord CHR ''W'' = 87" "ord CHR ''s'' = 115" "ord CHR ''S'' = 83"
  "ord CHR ''a'' = 97" "ord CHR ''A'' = 65" "ord CHR ''d'' = 100" "ord CHR ''D'' = 68"
  "KEY_UP = 259" "KEY_DOWN = 258" "KEY_LEFT = 260" "KEY_RIGHT = 261"
  by (simp_all add: ord_def KEY_UP_def KEY_DOWN_def KEY_LEFT_def KEY_RIGHT_def)

lemma handle_input_up:
  assumes "\<not> game_over s" and "key = 259 \<or> key = 119 \<or> key = 87"
  shows "handle_input key s = Some (Inr (True, if direction s = DOWN then s else s\<lparr>direction := UP\<rparr>))"
  using assms(2) by (elim disjE) (simp_all add: handle_input_def key_codes assms(1))

lemma handle_input_down:
  assumes "\<not> game_over s" and "key = 258 \<or> key = 115 \<or> key = 83"
  shows "handle_input key s = Some (Inr (True, if direction s = UP then s else s\<lparr>direction := DOWN\<rparr>))"
  using assms(2) by (elim disjE) (simp_all add: handle_input_def key_codes assms(1))

lemma handle_input_left:
  assumes "\<not> game_over s" and "key = 260 \<or> key = 97 \<or> key = 65"
  shows "handle_input key s = Some (Inr (True, if direction s = RIGHT then s else s\<lparr>direction := LEFT\<rparr>))"
  using assms(2) by (elim disjE) (simp_all add: handle_input_def key_codes assms(1))

lemma handle_input_right:
  assumes "\<not> game_over s" and "key = 261 \<or> key = 100 \<or> key = 68"
  shows "handle_input key s = Some (Inr (True, if direction s = LEFT then s else s\<lparr>direction := RIGHT\<rparr>))"
  using assms(2) by (elim disjE) (simp_all add: handle_input_def key_codes assms(1))

lemma opposite_eq:
  "UP = opposite e \<longleftrightarrow> e = DOWN" "DOWN = opposite e \<longleftrightarrow> e = UP"
  "LEFT = opposite e \<longleftrightarrow> e = RIGHT" "RIGHT = opposite e \<longleftrightarrow> e = LEFT"
  by (cases e; simp)+

lemma delta_opposite: "delta (opposite d) = (- fst (delta d), - snd (delta d))"
  by (cases d) simp_all

lemma handle_input_move:
  assumes "\<not> game_over s" and "key \<in> set (move_keys d)"
  shows "handle_input key s =
    Some (Inr (True, if d = opposite (direction s) then s else s\<lparr>direction := d\<rparr>))"
proof (cases d)
  case UP
  with assms(2) have "key = 259 \<or> key = 119 \<or> key = 87" by (simp add: key_codes)
  from handle_input_up[OF assms(1) this] UP show ?thesis by (simp add: opposite_eq)
next
  case DOWN
  with assms(2) have "key = 258 \<or> key = 115 \<or> key = 83" by (simp add: key_codes)
  from handle_input_down[OF assms(1) this] DOWN show ?thesis by (simp add: opposite_eq)
next
  case LEFT
  with assms(2) have "key = 260 \<or> key = 97 \<or> key = 65" by (simp add: key_codes)
  from handle_input_left[OF assms(1) this] LEFT show ?thesis by (simp add: opposite_eq)
next
  case RIGHT
  with assms(2) have "key = 261 \<or> key = 100 \<or> key = 68" by (simp add: key_codes)
  from handle_input_right[OF assms(1) this] RIGHT show ?thesis by (simp add: opposite_eq)
qed

lemma handle_input_quit:
  "key = ord CHR ''q'' \<or> key = ord CHR ''Q'' \<Longrightarrow> handle_input key s = Some (Inr (False, s))"
  by (simp add: handle_input_def)

lemma handle_input_restart:
  assumes "\<not> (key = ord CHR ''q'' \<or> key = ord CHR ''Q'')"
    and "key = ord CHR ''r'' \<or> key = ord CHR ''R''"
  shows "handle_input key s =
    (if game_over s then
       (case reset_game s of
          None \<Rightarrow> None
        | Some (Inl e) \<Rightarrow> Some (Inl e)
        | Some (Inr s') \<Rightarrow> Some (Inr (True, s')))
     else Some (Inr (True, s)))"
  unfolding handle_input_def using assms by (simp only: if_True if_False)

lemma handle_input_ignored:
  assumes "\<not> (key = ord CHR ''q'' \<or> key = ord CHR ''Q'')"
    and "\<not> (key = ord CHR ''r'' \<or> key = ord CHR ''R'')"
    and "game_over s"
  shows "handle_input key s = Some (Inr (True, s))"
  unfolding handle_input_def using assms by (simp only: if_True if_False not_True_eq_False)

lemma handle_input_playing:
  assumes "\<not> (key = ord CHR ''q'' \<or> key = ord CHR ''Q'')"
    and "\<not> (key = ord CHR ''r'' \<or> key = ord CHR ''R'')"
    and "\<not> game_over s"
  shows "\<exists>d. handle_input key s = Some (Inr (True, s\<lparr>direction := d\<rparr>))"
proof -
  have same: "s\<lparr>direction := direction s\<rparr> = s" by simp
  have eq: "handle_input key s =
        (if key = KEY_UP \<or> key = ord CHR ''w'' \<or> key = ord CHR ''W'' then
           (if direction s \<noteq> DOWN then Some (Inr (True, s\<lparr>direction := UP\<rparr>))
            else Some (Inr (True, s)))
         else if key = KEY_DOWN \<or> key = ord CHR ''s'' \<or> key = ord CHR ''S'' then
           (if direction s \<noteq> UP then Some (Inr (True, s\<lparr>direction := DOWN\<rparr>))
            else Some (Inr (True, s)))
         else if key = KEY_LEFT \<or> key = ord CHR ''a'' \<or> key = ord CHR ''A'' then
           (if direction s \<noteq> RIGHT then Some (Inr (True, s\<lparr>direction := LEFT\<rparr>))
            else Some (Inr (True, s)))
         else if key = KEY_RIGHT \<or> key = ord CHR ''d'' \<or> key = ord CHR ''D'' then
           (if direction s \<noteq> LEFT then Some (Inr (True, s\<lparr>direction := RIGHT\<rparr>))
            else Some (Inr (True, s)))
         else Some (Inr (True, s)))"
    unfolding handle_input_def using assms by (simp only: if_True if_False not_False_eq_True)
  define Q where "Q x \<longleftrightarrow> (\<exists>d. x = Some (Inr (True, s\<lparr>direction := d\<rparr>)))"
    for x :: "(error + (bool \<times> game)) option"
  have ifQ: "Q a \<Longrightarrow> Q b \<Longrightarrow> Q (if c then a else b)" for c a b by simp
  have "Q (Some (Inr (True, s\<lparr>direction := direction s\<rparr>)))" unfolding Q_def by blast
  then have keep: "Q (Some (Inr (True, s)))" by (simp only: same)
  have turn: "Q (Some (Inr (True, s\<lparr>direction := d\<rparr>)))" for d unfolding Q_def by blast
  have "Q (handle_input key s)" unfolding eq by (intro ifQ keep turn)
  then show ?thesis unfolding Q_def .
qed

lemma handle_input_cases:
  assumes "handle_input key s = Some (Inr (b, s'))"
  shows "(\<exists>d. s' = s\<lparr>direction := d\<rparr>) \<or> (game_over s \<and> reset_game s = Some (Inr s'))"
proof -
  have same: "s = s\<lparr>direction := direction s\<rparr>" by simp
  show ?thesis
  proof (cases "key = ord CHR ''q'' \<or> key = ord CHR ''Q''")
    case True
    from handle_input_quit[OF this, of s] assms have "s' = s" by simp
    with same show ?thesis by metis
  next
    case nq: False
    show ?thesis
    proof (cases "key = ord CHR ''r'' \<or> key = ord CHR ''R''")
      case True
      note eq = handle_input_restart[OF nq True, of s]
      show ?thesis
      proof (cases "game_over s")
        case True
        with eq assms have "reset_game s = Some (Inr s')"
          by (simp split: option.splits sum.splits)
        with True show ?thesis by simp
      next
        case False
        with eq assms have "s' = s" by simp
        with same show ?thesis by metis
      qed
    next
      case nr: False
      show ?thesis
      proof (cases "game_over s")
        case True
        from handle_input_ignored[OF nq nr True] assms have "s' = s" by simp
        with same show ?thesis by metis
      next
        case False
        from handle_input_playing[OF nq nr False] assms show ?thesis by auto
      qed
    qed
  qed
qed

subsection \<open>The food search\<close>

lemma generate_food_raises:
  "game_height s - 1 < 1 \<or> game_width s - 1 < 1 \<Longrightarrow> generate_food s = Some (Inl ValueError)"
  by (subst generate_food.simps) (auto simp: randint_def)

lemma generate_food_unfold:
  assumes "1 \<le> game_height s - 1" and "1 \<le> game_width s - 1"
  shows "generate_food s =
    (if draw s 0 \<notin> set (snake s) then Some (Inr (draw s 0, s\<lparr>rng := stl (stl (rng s))\<rparr>))
     else generate_food (s\<lparr>rng := stl (stl (rng s))\<rparr>))"
  using assms by (subst generate_food.simps) (simp add: randint_def draw_def)

lemma sdrop_two: "sdrop 2 r = stl (stl r)"
  by (simp add: numeral_2_eq_2)

lemma draw_next: "draw (s\<lparr>rng := stl (stl (rng s))\<rparr>) k = draw s (Suc k)"
  by (simp add: draw_def)

lemma draw_in_region:
  assumes "1 \<le> game_height s - 1" and "1 \<le> game_width s - 1"
  shows "draw s k \<in> region s"
proof -
  have "rng s !! (2 * k) mod nat (game_height s - 1) < nat (game_height s - 1)"
    using assms by simp
  moreover have "rng s !! (2 * k + 1) mod nat (game_width s - 1) < nat (game_width s - 1)"
    using assms by simp
  ultimately show ?thesis by (simp add: draw_def region_def) linarith
qed

lemma generate_food_finds:
  assumes "1 \<le> game_height s - 1" and "1 \<le> game_width s - 1"
    and "draw s k \<notin> set (snake s)"
  shows "\<exists>j\<le>k. generate_food s = Some (Inr (draw s j, s\<lparr>rng := sdrop (2 * Suc j) (rng s)\<rparr>))
           \<and> draw s j \<notin> set (snake s) \<and> (\<forall>i<j. draw s i \<in> set (snake s))"
  using assms
proof (induction k arbitrary: s)
  case 0
  then show ?case
    by (intro exI[of _ 0]) (simp add: generate_food_unfold sdrop_two)
next
  case (Suc k)
  show ?case
  proof (cases "draw s 0 \<in> set (snake s)")
    case False
    with Suc.prems show ?thesis
      by (intro exI[of _ 0]) (simp add: generate_food_unfold sdrop_two)
  next
    case True
    let ?s1 = "s\<lparr>rng := stl (stl (rng s))\<rparr>"
    have gf: "generate_food s = generate_food ?s1"
      using True Suc.prems by (simp add: generate_food_unfold)
    have "draw ?s1 k \<notin> set (snake ?s1)" using Suc.prems by (simp add: draw_next)
    with Suc.IH[of ?s1] Suc.prems obtain j where j: "j \<le> k"
      "generate_food ?s1 = Some (Inr (draw ?s1 j, ?s1\<lparr>rng := sdrop (2 * Suc j) (rng ?s1)\<rparr>))"
      "draw ?s1 j \<notin> set (snake ?s1)" "\<forall>i<j. draw ?s1 i \<in> set (snake ?s1)"
      by auto
    have "\<forall>i<Suc j. draw s i \<in> set (snake s)"
    proof (intro allI impI)
      fix i assume "i < Suc j"
      then show "draw s i \<in> set (snake s)"
        using True j(4) by (cases i) (auto simp: draw_next)
    qed
    with j gf show ?thesis
      by (intro exI[of _ "Suc j"]) (simp add: draw_next)
  qed
qed

text \<open>
  What a returning search returns: the first drawn cell that the snake does not hold,
  or \<^verbatim>\<open>ValueError\<close> when a range is empty.
\<close>

lemma generate_food_char:
  assumes "generate_food s = Some y"
  shows "if 1 \<le> game_height s - 1 \<and> 1 \<le> game_width s - 1
         then \<exists>k. y = Inr (draw s k, s\<lparr>rng := sdrop (2 * Suc k) (rng s)\<rparr>) \<and>
                  draw s k \<notin> set (snake s) \<and> (\<forall>i<k. draw s i \<in> set (snake s))
         else y = Inl ValueError"
proof (rule generate_food.raw_induct[OF _ assms])
  fix gf s y
  assume IH: "\<And>x y. gf x = Some y \<Longrightarrow>
      if 1 \<le> game_height x - 1 \<and> 1 \<le> game_width x - 1
      then \<exists>k. y = Inr (draw x k, x\<lparr>rng := sdrop (2 * Suc k) (rng x)\<rparr>) \<and>
               draw x k \<notin> set (snake x) \<and> (\<forall>i<k. draw x i \<in> set (snake x))
      else y = Inl ValueError"
    and step: "(case randint 1 (game_height s - 1) (rng s) of
        Inl e \<Rightarrow> Some (Inl e)
      | Inr (food_y, r1) \<Rightarrow>
          (case randint 1 (game_width s - 1) r1 of
             Inl e \<Rightarrow> Some (Inl e)
           | Inr (food_x, r2) \<Rightarrow>
               if (food_y, food_x) \<notin> set (snake s)
               then Some (Inr ((food_y, food_x), s\<lparr>rng := r2\<rparr>))
               else gf (s\<lparr>rng := r2\<rparr>))) = Some y"
  show "if 1 \<le> game_height s - 1 \<and> 1 \<le> game_width s - 1
      then \<exists>k. y = Inr (draw s k, s\<lparr>rng := sdrop (2 * Suc k) (rng s)\<rparr>) \<and>
               draw s k \<notin> set (snake s) \<and> (\<forall>i<k. draw s i \<in> set (snake s))
      else y = Inl ValueError"
  proof (cases "1 \<le> game_height s - 1 \<and> 1 \<le> game_width s - 1")
    case False
    with step have "y = Inl ValueError"
      by (auto simp: randint_def split: if_splits sum.splits prod.splits)
    with False show ?thesis by simp
  next
    case True
    let ?s1 = "s\<lparr>rng := stl (stl (rng s))\<rparr>"
    from True step have step':
      "(if draw s 0 \<notin> set (snake s) then Some (Inr (draw s 0, ?s1)) else gf ?s1) = Some y"
      by (auto simp add: randint_def draw_def split: if_splits)
    show ?thesis
    proof (cases "draw s 0 \<in> set (snake s)")
      case False
      with step' have "y = Inr (draw s 0, s\<lparr>rng := sdrop (2 * Suc 0) (rng s)\<rparr>)"
        by (simp add: sdrop_two)
      with False have "\<exists>k. y = Inr (draw s k, s\<lparr>rng := sdrop (2 * Suc k) (rng s)\<rparr>) \<and>
               draw s k \<notin> set (snake s) \<and> (\<forall>i<k. draw s i \<in> set (snake s))"
        by (intro exI[of _ 0]) simp
      with True show ?thesis by simp
    next
      case hit: True
      with step' have "gf ?s1 = Some y" by simp
      from IH[OF this] True obtain k where k:
        "y = Inr (draw ?s1 k, ?s1\<lparr>rng := sdrop (2 * Suc k) (rng ?s1)\<rparr>)"
        "draw ?s1 k \<notin> set (snake ?s1)" "\<forall>i<k. draw ?s1 i \<in> set (snake ?s1)"
        by auto
      have "\<forall>i<Suc k. draw s i \<in> set (snake s)"
      proof (intro allI impI)
        fix i assume "i < Suc k"
        then show "draw s i \<in> set (snake s)"
          using hit k(3) by (cases i) (auto simp: draw_next)
      qed
      with k(1,2) have "\<exists>k. y = Inr (draw s k, s\<lparr>rng := sdrop (2 * Suc k) (rng s)\<rparr>) \<and>
               draw s k \<notin> set (snake s) \<and> (\<forall>i<k. draw s i \<in> set (snake s))"
        by (intro exI[of _ "Suc k"]) (simp add: draw_next)
      with True show ?thesis by simp
    qed
  qed
qed

lemma generate_food_frame:
  assumes "generate_food s = Some (Inr (f, s'))"
  shows "s' = s\<lparr>rng := rng s'\<rparr>" and "f \<notin> set (snake s)" and "\<not> wall s f"
proof -
  have rg: "1 \<le> game_height s - 1 \<and> 1 \<le> game_width s - 1"
    using generate_food_char[OF assms] by (auto split: if_splits)
  with generate_food_char[OF assms] obtain k where
    k: "f = draw s k" "s' = s\<lparr>rng := sdrop (2 * Suc k) (rng s)\<rparr>" "draw s k \<notin> set (snake s)"
    by auto
  show "s' = s\<lparr>rng := rng s'\<rparr>" by (subst k(2), subst k(2)) simp
  show "f \<notin> set (snake s)" using k(1,3) by simp
  from rg have "draw s k \<in> region s" by (simp add: draw_in_region)
  then show "\<not> wall s f" unfolding k(1) by (auto simp: region_def wall_def)
qed

text \<open>Rules that run the search on a concrete state, one pass at a time.\<close>

lemma draw_0:
  "draw s 0 = (1 + int (shd (rng s) mod nat (game_height s - 1)),
               1 + int (shd (stl (rng s)) mod nat (game_width s - 1)))"
  by (simp add: draw_def)

lemma generate_food_accept:
  assumes "1 \<le> game_height s - 1" and "1 \<le> game_width s - 1"
    and "(1 + int (shd (rng s) mod nat (game_height s - 1)),
               1 + int (shd (stl (rng s)) mod nat (game_width s - 1))) \<notin> set (snake s)"
  shows "generate_food s =
    Some (Inr ((1 + int (shd (rng s) mod nat (game_height s - 1)),
               1 + int (shd (stl (rng s)) mod nat (game_width s - 1))),
          s\<lparr>rng := stl (stl (rng s))\<rparr>))"
  using assms generate_food_unfold[OF assms(1,2)] by (simp add: draw_0)

subsection \<open>\<^verbatim>\<open>reset_game\<close> and \<^verbatim>\<open>update_snake\<close>\<close>

lemma reset_game_result:
  assumes "reset_game s = Some (Inr s')"
  shows "s' = s\<lparr>snake := [(game_height s div 2, game_width s div 2),
                        (game_height s div 2, game_width s div 2 - 1),
                        (game_height s div 2, game_width s div 2 - 2)],
                direction := RIGHT, food := food s', game_over := False, score := 0,
                rng := rng s'\<rparr>"
    and "food s' \<notin> set (snake s')" and "\<not> wall s' (food s')"
proof -
  let ?s1 = "s\<lparr>snake := [(game_height s div 2, game_width s div 2),
                        (game_height s div 2, game_width s div 2 - 1),
                        (game_height s div 2, game_width s div 2 - 2)],
                direction := RIGHT\<rparr>"
  from assms obtain f s2 where gf: "generate_food ?s1 = Some (Inr (f, s2))"
    and s': "s' = s2\<lparr>food := f, game_over := False, score := 0\<rparr>"
    by (auto simp: reset_game_def Let_def split: option.splits sum.splits prod.splits)
  from generate_food_frame(1)[OF gf] have s2: "s2 = ?s1\<lparr>rng := rng s2\<rparr>" .
  show "s' = s\<lparr>snake := [(game_height s div 2, game_width s div 2),
                        (game_height s div 2, game_width s div 2 - 1),
                        (game_height s div 2, game_width s div 2 - 2)],
                direction := RIGHT, food := food s', game_over := False, score := 0,
                rng := rng s'\<rparr>"
    by (subst s', subst s2) (simp add: s')
  have "snake s' = snake ?s1" by (subst s', subst s2) simp
  moreover have "food s' = f" by (simp add: s')
  ultimately show "food s' \<notin> set (snake s')" using generate_food_frame(2)[OF gf] by simp
  have "wall s' (food s') = wall ?s1 f" by (subst s', subst s', subst s2) (simp add: wall_def)
  then show "\<not> wall s' (food s')" using generate_food_frame(3)[OF gf] by simp
qed

lemma end_game_eq:
  "end_game s = s\<lparr>game_over := True, high_score := max (high_score s) (score s)\<rparr>"
  by (simp add: end_game_def Let_def max_def)

lemma update_snake_over: "game_over s \<Longrightarrow> update_snake s = Some (Inr s)"
  by (simp add: update_snake_def)

lemma update_snake_alive:
  assumes "\<not> game_over s" and "snake s = h # t"
  shows "update_snake s =
    (if wall s (move h (direction s)) \<or> move h (direction s) \<in> set (snake s)
     then Some (Inr (end_game s))
     else if move h (direction s) = food s then
       (case generate_food (s\<lparr>snake := move h (direction s) # snake s, score := score s + 10\<rparr>) of
          None \<Rightarrow> None
        | Some (Inl e) \<Rightarrow> Some (Inl e)
        | Some (Inr (f, s2)) \<Rightarrow>
            Some (Inr (s2\<lparr>food := f, timeout := max 50 (100 - score s2 div 50)\<rparr>)))
     else Some (Inr (s\<lparr>snake := move h (direction s) # butlast (snake s)\<rparr>)))"
  using assms by (simp add: update_snake_def Let_def split: option.splits sum.splits prod.splits)

lemma update_snake_cases:
  assumes "update_snake s = Some (Inr s')"
  obtains (over) "game_over s" and "s' = s"
  | (crash) h t where "\<not> game_over s" and "snake s = h # t"
      and "wall s (move h (direction s)) \<or> move h (direction s) \<in> set (snake s)"
      and "s' = end_game s"
  | (eat) h t where "\<not> game_over s" and "snake s = h # t"
      and "\<not> wall s (move h (direction s))" and "move h (direction s) \<notin> set (snake s)"
      and "move h (direction s) = food s"
      and "s' = s\<lparr>snake := move h (direction s) # snake s, score := score s + 10,
                   food := food s', timeout := max 50 (100 - (score s + 10) div 50),
                   rng := rng s'\<rparr>"
      and "food s' \<notin> set (snake s')" and "\<not> wall s' (food s')"
  | (step) h t where "\<not> game_over s" and "snake s = h # t"
      and "\<not> wall s (move h (direction s))" and "move h (direction s) \<notin> set (snake s)"
      and "move h (direction s) \<noteq> food s"
      and "s' = s\<lparr>snake := move h (direction s) # butlast (snake s)\<rparr>"
proof (cases "game_over s")
  case True
  with assms have "s' = s" by (simp add: update_snake_def)
  with over True show ?thesis by blast
next
  case False
  with assms obtain h t where ht: "snake s = h # t"
    by (cases "snake s") (auto simp: update_snake_def)
  let ?nh = "move h (direction s)"
  note alive = update_snake_alive[OF False ht]
  show ?thesis
  proof (cases "wall s ?nh \<or> ?nh \<in> set (snake s)")
    case True
    with assms alive have "s' = end_game s" by simp
    with crash False ht True show ?thesis by blast
  next
    case nocrash: False
    show ?thesis
    proof (cases "?nh = food s")
      case notfood: False
      with assms alive nocrash have "s' = s\<lparr>snake := ?nh # butlast (snake s)\<rparr>"
        by simp
      with step False ht nocrash notfood show ?thesis by blast
    next
      case isfood: True
      let ?s1 = "s\<lparr>snake := ?nh # snake s, score := score s + 10\<rparr>"
      from assms alive nocrash isfood have
        "(case generate_food ?s1 of
          None \<Rightarrow> None
        | Some (Inl e) \<Rightarrow> Some (Inl e)
        | Some (Inr (f, s2)) \<Rightarrow>
            Some (Inr (s2\<lparr>food := f, timeout := max 50 (100 - score s2 div 50)\<rparr>))) = Some (Inr s')"
        by simp
      then obtain f s2 where
        gf: "generate_food ?s1 = Some (Inr (f, s2))" and
        s': "s' = s2\<lparr>food := f, timeout := max 50 (100 - score s2 div 50)\<rparr>"
        by (auto split: option.splits sum.splits prod.splits)
      from generate_food_frame(1)[OF gf] have s2: "s2 = ?s1\<lparr>rng := rng s2\<rparr>" .
      have a: "s' = s\<lparr>snake := ?nh # snake s, score := score s + 10,
                   food := food s', timeout := max 50 (100 - (score s + 10) div 50),
                   rng := rng s'\<rparr>"
        by (subst s', subst s2, subst s2) (simp add: s')
      have "snake s' = snake ?s1" by (subst s', subst s2) simp
      moreover have f: "food s' = f" by (simp add: s')
      ultimately have b: "food s' \<notin> set (snake s')" using generate_food_frame(2)[OF gf] by simp
      have "wall s' (food s') = wall ?s1 f" unfolding f by (subst s', subst s2) (simp add: wall_def)
      then have c: "\<not> wall s' (food s')" using generate_food_frame(3)[OF gf] by simp
      from eat[OF False ht _ _ isfood a b c] nocrash show ?thesis by blast
    qed
  qed
qed

lemma init_result:
  assumes "init h w r = Some (Inr s)"
  shows "snake s = [((h - 4) div 2, (w - 2) div 2), ((h - 4) div 2, (w - 2) div 2 - 1),
                    ((h - 4) div 2, (w - 2) div 2 - 2)]"
proof -
  let ?s0 = "\<lparr>height = h, width = w, game_height = h - 4, game_width = w - 2,
                snake = [], direction = RIGHT, food = (0, 0), game_over = False,
                score = 0, high_score = 0, timeout = -1, rng = r\<rparr>"
  from assms obtain s1 where r: "reset_game ?s0 = Some (Inr s1)" and s: "s = s1\<lparr>timeout := 100\<rparr>"
    by (auto simp: init_def Let_def split: option.splits sum.splits)
  have "snake s = snake s1" by (simp add: s)
  also have "\<dots> = [((h - 4) div 2, (w - 2) div 2), ((h - 4) div 2, (w - 2) div 2 - 1),
                    ((h - 4) div 2, (w - 2) div 2 - 2)]"
    by (subst reset_game_result(1)[OF r]) simp
  finally show ?thesis .
qed

lemma reset_snake:
  assumes "reset_game s = Some (Inr s')"
  shows "snake s' = [(game_height s div 2, game_width s div 2),
                        (game_height s div 2, game_width s div 2 - 1),
                        (game_height s div 2, game_width s div 2 - 2)]"
  by (subst reset_game_result(1)[OF assms]) simp

lemma reachable_snake: "reachable s \<Longrightarrow> snake s \<noteq> [] \<and> distinct (snake s)"
proof (induction rule: reachable.induct)
  case (reach_init h w r s)
  then show ?case by (simp add: init_result)
next
  case (reach_input s key b s')
  from handle_input_cases[OF reach_input.hyps(2)] show ?case
  proof
    assume "\<exists>d. s' = s\<lparr>direction := d\<rparr>"
    then obtain d where "s' = s\<lparr>direction := d\<rparr>" ..
    with reach_input.IH show ?thesis by simp
  next
    assume "game_over s \<and> reset_game s = Some (Inr s')"
    then have "reset_game s = Some (Inr s')" ..
    from reset_snake[OF this] show ?thesis by simp
  qed
next
  case (reach_tick s s')
  from reach_tick.hyps(2) show ?case
  proof (cases rule: update_snake_cases)
    case over
    with reach_tick.IH show ?thesis by simp
  next
    case (crash h t)
    with reach_tick.IH show ?thesis by (simp add: end_game_eq)
  next
    case (eat h t)
    have "snake s' = move h (direction s) # snake s" by (subst eat(6)) simp
    with eat(4) reach_tick.IH show ?thesis by simp
  next
    case (step h t)
    have "snake s' = move h (direction s) # butlast (snake s)" by (subst step(6)) simp
    with step(4) reach_tick.IH show ?thesis
      by (auto simp: distinct_butlast dest: in_set_butlastD)
  qed
qed

lemma not_wall_iff:
  "\<not> wall s p \<longleftrightarrow> 0 < fst p \<and> fst p < game_height s \<and> 0 < snd p \<and> snd p < game_width s"
  by (auto simp: wall_def)

lemma handle_input_high_score:
  assumes "handle_input key s = Some (Inr (b, s'))"
  shows "high_score s' = high_score s"
  using handle_input_cases[OF assms]
proof
  assume "\<exists>d. s' = s\<lparr>direction := d\<rparr>"
  then show ?thesis by auto
next
  assume "game_over s \<and> reset_game s = Some (Inr s')"
  then have "reset_game s = Some (Inr s')" ..
  from reset_game_result(1)[OF this] show ?thesis by (rule ssubst) simp
qed

lemma update_snake_high_score:
  assumes "update_snake s = Some (Inr s')"
  shows "high_score s \<le> high_score s'"
  using assms
proof (cases rule: update_snake_cases)
  case over
  then show ?thesis by simp
next
  case (crash h t)
  then show ?thesis by (simp add: end_game_eq)
next
  case (eat h t)
  show ?thesis by (subst eat(6)) simp
next
  case (step h t)
  then show ?thesis by simp
qed

lemma reset_game_high_score:
  assumes "reset_game s = Some (Inr s')"
  shows "high_score s' = high_score s"
  by (subst reset_game_result(1)[OF assms]) simp

lemma apply_op_high_score:
  assumes "apply_op x s = Some (Inr s')"
  shows "high_score s \<le> high_score s'"
proof (cases x)
  case (Input key)
  with assms obtain b where "handle_input key s = Some (Inr (b, s'))"
    by (auto split: option.splits sum.splits prod.splits)
  from handle_input_high_score[OF this] show ?thesis by simp
next
  case Tick
  with assms show ?thesis by (simp add: update_snake_high_score)
next
  case Reset
  with assms show ?thesis by (simp add: reset_game_high_score)
qed

lemma apply_ops_high_score:
  "apply_ops xs s = Some (Inr s') \<Longrightarrow> high_score s \<le> high_score s'"
proof (induction xs arbitrary: s)
  case Nil
  then show ?case by simp
next
  case (Cons x xs)
  from Cons.prems obtain s1 where 1: "apply_op x s = Some (Inr s1)"
    and 2: "apply_ops xs s1 = Some (Inr s')"
    by (auto split: option.splits sum.splits)
  from apply_op_high_score[OF 1] Cons.IH[OF 2] show ?case by simp
qed

lemma region_nonempty:
  "c \<in> region s \<Longrightarrow> 1 \<le> game_height s - 1 \<and> 1 \<le> game_width s - 1"
  by (auto simp: region_def)

section \<open>The claims\<close>

subsection \<open>The example states are reached by method calls\<close>

lemma init_feast: "init 10 40 feast = Some (Inr fresh)"
  by (simp add: init_def reset_game_def generate_food_accept on_40x10_def feast_def fresh_def)

lemma tick_fresh: "update_snake fresh = Some (Inr grown)"
  by (simp add: update_snake_def move_def wall_def generate_food_accept on_40x10_def
      fresh_def grown_def)

lemma fresh_to_before_crash:
  "apply_ops [Input (-1), Tick, Input (-1), Tick, Input (-1), Tick, Input (-1), Tick,
     Input (-1), Tick, Input (ord CHR ''s''), Tick, Input (-1), Tick] fresh =
   Some (Inr before_crash)"
  by (simp add: handle_input_def key_codes update_snake_def move_def wall_def
      generate_food_accept on_40x10_def fresh_def before_crash_def)

lemma tick_before_crash: "update_snake before_crash = Some (Inr crashed)"
  by (simp add: update_snake_def move_def wall_def end_game_def on_40x10_def
      before_crash_def crashed_def)

lemma reachable_turned_down: "reachable turned_down"
proof -
  let ?s0 = "on_40x10 [(3, 19), (3, 18), (3, 17)] RIGHT (1, 1) False 0 0 100 (sconst 0)"
  let ?s1 = "on_40x10 [(3, 19), (3, 18), (3, 17)] DOWN (1, 1) False 0 0 100 (sconst 0)"
  have "init 10 40 (sconst 0) = Some (Inr ?s0)"
    by (simp add: init_def reset_game_def generate_food_accept on_40x10_def)
  then have "reachable ?s0" by (rule reach_init)
  moreover have "handle_input (ord CHR ''s'') ?s0 = Some (Inr (True, ?s1))"
    by (simp add: handle_input_def key_codes on_40x10_def)
  ultimately have "reachable ?s1" by (rule reach_input)
  moreover have "update_snake ?s1 = Some (Inr turned_down)"
    by (simp add: update_snake_def move_def wall_def on_40x10_def turned_down_def)
  ultimately show ?thesis by (rule reach_tick)
qed

lemma init_banquet: "init 24 80 banquet = Some (Inr laid)"
  by (simp add: init_def reset_game_def generate_food_accept on_80x24_def banquet_def laid_def)

subsection \<open>C1: wall collision\<close>

text \<open>
  On the grid of the specification, the wall test in the specification's words is the
  test of \<^verbatim>\<open>update_snake\<close>, and the cells it lets through are the cells
  \<^verbatim>\<open>generate_food\<close> samples.
\<close>

lemma spec_boundary_is_wall: "spec_boundary (grid_bounds s) p \<longleftrightarrow> wall s p"
  by (simp add: spec_boundary_def grid_bounds_def wall_def)

lemma off_boundary_is_region: "\<not> spec_boundary (grid_bounds s) p \<longleftrightarrow> p \<in> region s"
  by (cases p) (auto simp: spec_boundary_def grid_bounds_def region_def)

text \<open>
  C1: for every state with \<open>game_over\<close> false, if the new head (head plus the delta of
  the direction) lies on or outside the grid boundary, that is, has row \<open>\<le> 0\<close>,
  row \<open>\<ge> height - 1\<close>, column \<open>\<le> 0\<close> or column \<open>\<ge> width - 1\<close> for the grid bounds
  \<open>(height, width)\<close>, then the tick sets \<open>game_over\<close>, sets \<open>high_score\<close> to the maximum
  of \<open>high_score\<close> and \<open>score\<close>, and returns with nothing else changed: snake, food and
  score are as before.
\<close>

theorem wall_collision_ends_game:
  assumes "\<not> game_over s" and "snake s = h # t"
    and "spec_boundary (grid_bounds s) (move h (direction s))"
  shows "update_snake s =
    Some (Inr (s\<lparr>game_over := True, high_score := max (high_score s) (score s)\<rparr>))"
proof -
  from assms(3) have "wall s (move h (direction s))"
    by (simp add: spec_boundary_def grid_bounds_def wall_def)
  with assms(1,2) show ?thesis by (simp add: update_snake_alive end_game_eq)
qed

theorem wall_collision_ends_game_witness:
  "\<not> game_over before_crash \<and>
   snake before_crash =
     (5, 24) # [(4, 24), (3, 24), (3, 23), (3, 22), (3, 21), (3, 20), (3, 19)] \<and>
   spec_boundary (grid_bounds before_crash) (move (5, 24) (direction before_crash)) \<and>
   update_snake before_crash =
     Some (Inr (before_crash\<lparr>game_over := True,
       high_score := max (high_score before_crash) (score before_crash)\<rparr>))"
proof -
  have 1: "\<not> game_over before_crash" by (simp add: before_crash_def on_40x10_def)
  have 2: "snake before_crash =
     (5, 24) # [(4, 24), (3, 24), (3, 23), (3, 22), (3, 21), (3, 20), (3, 19)]"
    by (simp add: before_crash_def on_40x10_def)
  have 3: "spec_boundary (grid_bounds before_crash) (move (5, 24) (direction before_crash))"
    by (simp add: before_crash_def on_40x10_def spec_boundary_def grid_bounds_def move_def)
  from 1 2 3 wall_collision_ends_game[OF 1 2 3] show ?thesis by simp
qed

subsection \<open>C2: the snake never overlaps itself\<close>

text \<open>
  C2: in every state reachable from the initial state by input handling and ticks, with
  \<open>game_over\<close> false, the snake holds no position twice.
\<close>

theorem snake_never_overlaps:
  assumes "reachable s" and "\<not> game_over s"
  shows "distinct (snake s)"
  using reachable_snake[OF assms(1)] by simp

theorem snake_never_overlaps_witness:
  "reachable turned_down \<and> \<not> game_over turned_down \<and> distinct (snake turned_down)"
proof -
  have 1: "\<not> game_over turned_down" by (simp add: turned_down_def on_40x10_def)
  from snake_never_overlaps[OF reachable_turned_down 1] reachable_turned_down 1
  show ?thesis by simp
qed

subsection \<open>C3: the growth law\<close>

text \<open>
  C3: for every tick of a running game that does not end the game: when the new head is
  the food position the snake is the old one with the new head in front (one longer) and
  the score is 10 higher; otherwise the snake is the old one with the new head in front
  and the tail removed (the same length), and the score is unchanged.
\<close>

theorem growth_law:
  assumes "\<not> game_over s" and "update_snake s = Some (Inr s')" and "\<not> game_over s'"
  shows "\<exists>h t. snake s = h # t \<and>
     (if move h (direction s) = food s
      then snake s' = move h (direction s) # snake s \<and>
           length (snake s') = length (snake s) + 1 \<and> score s' = score s + 10
      else snake s' = move h (direction s) # butlast (snake s) \<and>
           length (snake s') = length (snake s) \<and> score s' = score s)"
  using assms(2)
proof (cases rule: update_snake_cases)
  case over
  with assms(1) show ?thesis by simp
next
  case (crash h t)
  with assms(3) show ?thesis by (simp add: end_game_eq)
next
  case (eat h t)
  have "snake s' = move h (direction s) # snake s" and "score s' = score s + 10"
    by (subst eat(6), simp)+
  with eat(2,5) show ?thesis by simp
next
  case (step h t)
  have "snake s' = move h (direction s) # butlast (snake s)" and "score s' = score s"
    by (subst step(6), simp)+
  with step(2,5) show ?thesis by simp
qed

theorem growth_law_witness:
  "\<not> game_over fresh \<and> update_snake fresh = Some (Inr grown) \<and> \<not> game_over grown \<and>
   (\<exists>h t. snake fresh = h # t \<and>
     (if move h (direction fresh) = food fresh
      then snake grown = move h (direction fresh) # snake fresh \<and>
           length (snake grown) = length (snake fresh) + 1 \<and> score grown = score fresh + 10
      else snake grown = move h (direction fresh) # butlast (snake fresh) \<and>
           length (snake grown) = length (snake fresh) \<and> score grown = score fresh))"
proof -
  have 1: "\<not> game_over fresh" by (simp add: fresh_def on_40x10_def)
  have 3: "\<not> game_over grown" by (simp add: grown_def on_40x10_def)
  from growth_law[OF 1 tick_fresh 3] 1 3 tick_fresh show ?thesis by simp
qed

subsection \<open>C4: the reversal rule\<close>

text \<open>
  C4: in a running game with direction \<open>D\<close>, the key of a movement command whose
  direction is the reversal of \<open>D\<close> leaves the direction \<open>D\<close>; the key of any other
  movement command makes its direction the new one.
\<close>

theorem reversal_rejected_other_moves_accepted:
  assumes "\<not> game_over s" and "key \<in> set (move_keys d)"
  shows "\<exists>s'. handle_input key s = Some (Inr (True, s')) \<and>
           direction s' = (if d = opposite (direction s) then direction s else d)"
  using handle_input_move[OF assms] by simp

theorem reversal_rejected_other_moves_accepted_witness:
  "\<not> game_over fresh \<and> KEY_LEFT \<in> set (move_keys LEFT) \<and>
   (\<exists>s'. handle_input KEY_LEFT fresh = Some (Inr (True, s')) \<and>
      direction s' = (if LEFT = opposite (direction fresh) then direction fresh else LEFT))"
proof -
  have 1: "\<not> game_over fresh" by (simp add: fresh_def on_40x10_def)
  have 2: "KEY_LEFT \<in> set (move_keys LEFT)" by simp
  from reversal_rejected_other_moves_accepted[OF 1 2] 1 2 show ?thesis by simp
qed

subsection \<open>C5: where food is placed\<close>

text \<open>
  C5: the cell \<^verbatim>\<open>generate_food\<close> returns is not a position of the snake and is strictly
  inside the walls (\<open>0 < row < game_height\<close>, \<open>0 < column < game_width\<close>), and so is the
  food of the state after a reset and after a tick that eats the food.
\<close>

theorem food_off_snake_and_inside_walls:
  "(generate_food s = Some (Inr (f, s1)) \<longrightarrow>
      f \<notin> set (snake s) \<and>
      0 < fst f \<and> fst f < game_height s \<and> 0 < snd f \<and> snd f < game_width s) \<and>
   (reset_game s = Some (Inr s2) \<longrightarrow>
      food s2 \<notin> set (snake s2) \<and>
      0 < fst (food s2) \<and> fst (food s2) < game_height s2 \<and>
      0 < snd (food s2) \<and> snd (food s2) < game_width s2) \<and>
   (\<not> game_over s \<and> snake s = h # t \<and> move h (direction s) = food s \<and>
    update_snake s = Some (Inr s3) \<and> \<not> game_over s3 \<longrightarrow>
      food s3 \<notin> set (snake s3) \<and>
      0 < fst (food s3) \<and> fst (food s3) < game_height s3 \<and>
      0 < snd (food s3) \<and> snd (food s3) < game_width s3)"
proof -
  have gen: "f \<notin> set (snake s) \<and>
      0 < fst f \<and> fst f < game_height s \<and> 0 < snd f \<and> snd f < game_width s"
    if "generate_food s = Some (Inr (f, s1))"
    using generate_food_frame(2,3)[OF that] by (simp add: not_wall_iff)
  have reset: "food s2 \<notin> set (snake s2) \<and>
      0 < fst (food s2) \<and> fst (food s2) < game_height s2 \<and>
      0 < snd (food s2) \<and> snd (food s2) < game_width s2"
    if "reset_game s = Some (Inr s2)"
    using reset_game_result(2,3)[OF that] by (simp add: not_wall_iff)
  have eat: "food s3 \<notin> set (snake s3) \<and>
      0 < fst (food s3) \<and> fst (food s3) < game_height s3 \<and>
      0 < snd (food s3) \<and> snd (food s3) < game_width s3"
    if a: "\<not> game_over s \<and> snake s = h # t \<and> move h (direction s) = food s \<and>
      update_snake s = Some (Inr s3) \<and> \<not> game_over s3"
  proof -
    from a have "update_snake s = Some (Inr s3)" by simp
    then show ?thesis
    proof (cases rule: update_snake_cases)
      case over
      with a show ?thesis by simp
    next
      case (crash h' t')
      with a show ?thesis by (simp add: end_game_eq)
    next
      case (eat h' t')
      then show ?thesis by (simp add: not_wall_iff)
    next
      case (step h' t')
      with a show ?thesis by simp
    qed
  qed
  from gen reset eat show ?thesis by blast
qed

theorem food_off_snake_and_inside_walls_witness:
  "generate_food fresh =
     Some (Inr ((3, 21), fresh\<lparr>rng := [2, 21, 2, 22, 2, 23] @- sconst 0\<rparr>)) \<and>
   reset_game fresh = Some (Inr (fresh\<lparr>food := (3, 21), rng := [2, 21, 2, 22, 2, 23] @- sconst 0\<rparr>)) \<and>
   snake fresh = (3, 19) # [(3, 18), (3, 17)] \<and>
   move (3, 19) (direction fresh) = food fresh \<and>
   update_snake fresh = Some (Inr grown) \<and> \<not> game_over grown \<and>
   food grown \<notin> set (snake grown) \<and>
   0 < fst (food grown) \<and> fst (food grown) < game_height grown \<and>
   0 < snd (food grown) \<and> snd (food grown) < game_width grown"
proof -
  have 1: "generate_food fresh =
     Some (Inr ((3, 21), fresh\<lparr>rng := [2, 21, 2, 22, 2, 23] @- sconst 0\<rparr>))"
    by (simp add: generate_food_accept fresh_def on_40x10_def)
  have 2: "reset_game fresh =
     Some (Inr (fresh\<lparr>food := (3, 21), rng := [2, 21, 2, 22, 2, 23] @- sconst 0\<rparr>))"
    by (simp add: reset_game_def generate_food_accept fresh_def on_40x10_def)
  have 3: "\<not> game_over fresh \<and> snake fresh = (3, 19) # [(3, 18), (3, 17)] \<and>
    move (3, 19) (direction fresh) = food fresh \<and>
    update_snake fresh = Some (Inr grown) \<and> \<not> game_over grown"
    using tick_fresh by (simp add: fresh_def grown_def on_40x10_def move_def)
  from food_off_snake_and_inside_walls[of fresh "(3, 21)"
      "fresh\<lparr>rng := [2, 21, 2, 22, 2, 23] @- sconst 0\<rparr>"
      "fresh\<lparr>food := (3, 21), rng := [2, 21, 2, 22, 2, 23] @- sconst 0\<rparr>"
      "(3, 19)" "[(3, 18), (3, 17)]" grown] 1 2 3
  show ?thesis by simp
qed

subsection \<open>C6: ticks after the end of the game\<close>

text \<open>
  C6: in a state with \<open>game_over\<close> true a tick returns the state as it is, every
  attribute unchanged, and so does any number of ticks in a row.
\<close>

theorem tick_after_game_over_is_noop:
  "game_over s \<Longrightarrow> update_snake s = Some (Inr s) \<and> ticks n s = Some (Inr s)"
  by (induction n) (simp_all add: update_snake_over)

theorem tick_after_game_over_is_noop_witness:
  "game_over crashed \<and> update_snake crashed = Some (Inr crashed) \<and>
   ticks 3 crashed = Some (Inr crashed)"
proof -
  have 1: "game_over crashed" by (simp add: crashed_def on_40x10_def)
  from tick_after_game_over_is_noop[OF 1, of 3] 1 show ?thesis by simp
qed

subsection \<open>C7: the high score never decreases\<close>

text \<open>
  C7: no sequence of input handling, ticks and resets that returns lowers
  \<open>high_score\<close>; a reset keeps \<open>high_score\<close> and the game area, and sets the snake to
  its three starting cells, the direction to \<open>RIGHT\<close>, the food to a cell off the snake,
  the score to 0 and \<open>game_over\<close> to false.
\<close>

theorem high_score_never_decreases:
  "(apply_ops xs s = Some (Inr s') \<longrightarrow> high_score s \<le> high_score s') \<and>
   (reset_game s = Some (Inr s2) \<longrightarrow>
      high_score s2 = high_score s \<and>
      game_height s2 = game_height s \<and> game_width s2 = game_width s \<and>
      snake s2 = [(game_height s div 2, game_width s div 2),
                  (game_height s div 2, game_width s div 2 - 1),
                  (game_height s div 2, game_width s div 2 - 2)] \<and>
      direction s2 = RIGHT \<and> food s2 \<notin> set (snake s2) \<and> score s2 = 0 \<and>
      \<not> game_over s2)"
proof -
  have "high_score s2 = high_score s \<and>
      game_height s2 = game_height s \<and> game_width s2 = game_width s \<and>
      snake s2 = [(game_height s div 2, game_width s div 2),
                  (game_height s div 2, game_width s div 2 - 1),
                  (game_height s div 2, game_width s div 2 - 2)] \<and>
      direction s2 = RIGHT \<and> score s2 = 0 \<and> \<not> game_over s2"
    if "reset_game s = Some (Inr s2)"
    by (subst (1 2 3 4 5 6 7) reset_game_result(1)[OF that]) simp
  with reset_game_result(2) apply_ops_high_score show ?thesis by blast
qed

theorem high_score_never_decreases_witness:
  "apply_ops [Tick, Input (ord CHR ''r''), Tick] before_crash = Some (Inr restarted) \<and>
   high_score before_crash \<le> high_score restarted \<and>
   reset_game before_crash =
     Some (Inr (on_40x10 [(3, 19), (3, 18), (3, 17)] RIGHT (1, 1) False 0 0 99 (sconst 0))) \<and>
   high_score (on_40x10 [(3, 19), (3, 18), (3, 17)] RIGHT (1, 1) False 0 0 99 (sconst 0)) =
     high_score before_crash"
proof -
  let ?r = "on_40x10 [(3, 19), (3, 18), (3, 17)] RIGHT (1, 1) False 0 0 99 (sconst 0)"
  have 1: "apply_ops [Tick, Input (ord CHR ''r''), Tick] before_crash = Some (Inr restarted)"
    by (simp add: tick_before_crash)
      (simp add: handle_input_def key_codes update_snake_def move_def wall_def reset_game_def
        generate_food_accept on_40x10_def crashed_def restarted_def)
  have 2: "reset_game before_crash = Some (Inr ?r)"
    by (simp add: reset_game_def generate_food_accept on_40x10_def before_crash_def)
  from high_score_never_decreases[of "[Tick, Input (ord CHR ''r''), Tick]" before_crash
      restarted ?r] 1 2
  show ?thesis by simp
qed

subsection \<open>C8: the delay after a restart\<close>

text \<open>
  Where the delay does follow the score: \<^verbatim>\<open>__init__\<close> establishes
  \<open>timeout = max(50, 100 - score div 50)\<close> and every tick keeps it. What breaks it is
  \<^verbatim>\<open>reset_game\<close>.
\<close>

lemma delay_follows_score_init:
  assumes "init h w r = Some (Inr s)"
  shows "timeout s = interval_ms (score s)"
proof -
  let ?s0 = "\<lparr>height = h, width = w, game_height = h - 4, game_width = w - 2,
                snake = [], direction = RIGHT, food = (0, 0), game_over = False,
                score = 0, high_score = 0, timeout = -1, rng = r\<rparr>"
  from assms obtain s1 where r: "reset_game ?s0 = Some (Inr s1)"
    and s: "s = s1\<lparr>timeout := 100\<rparr>"
    by (auto simp: init_def Let_def split: option.splits sum.splits)
  have "score s1 = 0" by (subst reset_game_result(1)[OF r]) simp
  then show ?thesis by (simp add: s interval_ms_def)
qed

lemma delay_follows_score_tick:
  assumes "update_snake s = Some (Inr s')" and "timeout s = interval_ms (score s)"
  shows "timeout s' = interval_ms (score s')"
  using assms(1)
proof (cases rule: update_snake_cases)
  case over
  with assms(2) show ?thesis by simp
next
  case (crash h t)
  with assms(2) show ?thesis by (simp add: end_game_eq)
next
  case (eat h t)
  show ?thesis by (subst eat(6), subst eat(6)) (simp add: interval_ms_def)
next
  case (step h t)
  with assms(2) show ?thesis by simp
qed

text \<open>
  C8 says that after every tick, the first one after a reset included, the delay is
  \<open>max(50, 100 - score div 50)\<close> of the current score. The code gives \<^verbatim>\<open>stdscr.timeout\<close>
  a new delay only in the tick that eats food, and \<^verbatim>\<open>reset_game\<close> sets the score to 0
  without touching the delay. On a terminal of 24 lines and 80 columns the snake eats
  five pieces of food (score 50, delay 99), runs into the top wall and is restarted:
  after the next tick the score is 0 and the delay is still 99, where the formula
  gives 100.
\<close>

theorem delay_stale_after_restart:
  "init 24 80 banquet = Some (Inr laid) \<and>
   apply_ops banquet_run laid = Some (Inr revived) \<and>
   score revived = 0 \<and> timeout revived = 99 \<and> interval_ms (score revived) = 100"
proof -
  have "apply_ops banquet_run laid = Some (Inr revived)"
    by (simp add: banquet_run_def handle_input_def key_codes update_snake_def move_def
        wall_def end_game_def reset_game_def generate_food_accept on_80x24_def laid_def
        revived_def)
  then show ?thesis
    using init_banquet by (simp add: revived_def on_80x24_def interval_ms_def)
qed

subsection \<open>C9: the food search returns\<close>







text \<open>
  A generator that draws every cell of the sampled region at some pass draws a free
  cell whenever there is one, so with it the search returns; \<open>sweep\<close> is such a
  generator.
\<close>

lemma generate_food_fair:
  assumes "\<exists>c \<in> region s. c \<notin> set (snake s)" and "fair s"
  shows "\<exists>f s'. generate_food s = Some (Inr (f, s')) \<and> f \<in> region s \<and> f \<notin> set (snake s)"
proof -
  from assms(1) obtain c where c: "c \<in> region s" "c \<notin> set (snake s)" by blast
  from region_nonempty[OF c(1)] have rg: "1 \<le> game_height s - 1" "1 \<le> game_width s - 1"
    by simp_all
  from assms(2) c(1) obtain k where "draw s k = c" unfolding fair_def by blast
  with c(2) have "draw s k \<notin> set (snake s)" by simp
  from generate_food_finds[OF rg this] obtain j where
    "generate_food s = Some (Inr (draw s j, s\<lparr>rng := sdrop (2 * Suc j) (rng s)\<rparr>))"
    "draw s j \<notin> set (snake s)" by blast
  with draw_in_region[OF rg, of j] show ?thesis by blast
qed

lemma draw_swept: "draw swept k = (1 + int (k div 37 mod 5), 1 + int (k mod 37))"
  by (simp add: draw_def swept_def on_40x10_def sweep_def)

lemma fair_swept: "fair swept"
  unfolding fair_def
proof
  fix c assume c: "c \<in> region swept"
  obtain y x where yx: "c = (y, x)" by (cases c)
  with c have b: "1 \<le> y" "y \<le> 5" "1 \<le> x" "x \<le> 37"
    by (simp_all add: region_def swept_def on_40x10_def)
  let ?k = "nat (y - 1) * 37 + nat (x - 1)"
  from b have "?k div 37 = nat (y - 1)" and "?k mod 37 = nat (x - 1)" by simp_all
  with b have "draw swept ?k = (y, x)" by (simp add: draw_swept)
  with yx show "\<exists>k. draw swept k = c" by blast
qed

subsection \<open>C10: a movement input changes the direction only\<close>

text \<open>
  C10: in a running game, handling the key of a movement command returns the state
  with at most the direction changed: snake, food, score, high score, the
  \<open>game_over\<close> flag, the game area and everything else are as before.
\<close>

theorem move_input_changes_direction_only:
  assumes "\<not> game_over s" and "key \<in> set (move_keys d)"
  shows "\<exists>d'. handle_input key s = Some (Inr (True, s\<lparr>direction := d'\<rparr>))"
proof (cases "d = opposite (direction s)")
  case True
  with handle_input_move[OF assms] have "handle_input key s = Some (Inr (True, s\<lparr>direction := direction s\<rparr>))"
    by simp
  then show ?thesis ..
next
  case False
  with handle_input_move[OF assms] have "handle_input key s = Some (Inr (True, s\<lparr>direction := d\<rparr>))"
    by simp
  then show ?thesis ..
qed

theorem move_input_changes_direction_only_witness:
  "\<not> game_over fresh \<and> KEY_UP \<in> set (move_keys UP) \<and>
   (\<exists>d'. handle_input KEY_UP fresh = Some (Inr (True, fresh\<lparr>direction := d'\<rparr>)))"
proof -
  have 1: "\<not> game_over fresh" by (simp add: fresh_def on_40x10_def)
  have 2: "KEY_UP \<in> set (move_keys UP)" by simp
  from move_input_changes_direction_only[OF 1 2] 1 2 show ?thesis by simp
qed

end
